theory Spec2Isabelle
  imports Complex_Main "HOL-Library.Multiset"
begin

section \<open>JavaScript values\<close>

text \<open>
  The program works on the values that \<^verbatim>\<open>JSON.parse\<close> and the line parser produce.
  A number is an IEEE double: not-a-number, an infinity, or a finite value, which is a rational
  (the two zeros are one value here: the program never divides, and comparison, \<^verbatim>\<open>typeof\<close>
  and serialisation do not tell them apart).
  Strings are byte lists holding UTF-8; every pattern of the program is ASCII, and an ASCII byte
  in UTF-8 is always an ASCII character, so matching on bytes agrees with matching on characters.
  An object is the list of its own enumerable properties in the order \<^verbatim>\<open>Object.keys\<close> lists them.
  The members that an object inherits from its prototype are not part of a document, and the
  keys of documents are taken to differ from the names of such members. The one object that the
  program itself fills as a dictionary, the path counter of the history analyzer, is modelled
  together with the members it inherits.
\<close>

datatype jsnum = NaN | NegInf | Fin rat | PosInf

datatype jvalue =
    JUndefined
  | JNull
  | JBool bool
  | JNum jsnum
  | JStr string
  | JArr "jvalue list"
  | JObj "(string \<times> jvalue) list"

datatype jstype = TUndefined | TObject | TBoolean | TNumber | TString

fun typeof :: "jvalue \<Rightarrow> jstype" where
  "typeof JUndefined = TUndefined"
| "typeof JNull = TObject"
| "typeof (JBool b) = TBoolean"
| "typeof (JNum n) = TNumber"
| "typeof (JStr s) = TString"
| "typeof (JArr xs) = TObject"
| "typeof (JObj kvs) = TObject"

fun isNaN :: "jsnum \<Rightarrow> bool" where
  "isNaN NaN = True"
| "isNaN n = False"

text \<open>The relational operator \<^verbatim>\<open><\<close> on two numbers; any comparison with NaN is false.\<close>

fun num_less :: "jsnum \<Rightarrow> jsnum \<Rightarrow> bool" where
  "num_less NaN b = False"
| "num_less a NaN = False"
| "num_less PosInf b = False"
| "num_less a NegInf = False"
| "num_less NegInf b = True"
| "num_less a PosInf = True"
| "num_less (Fin x) (Fin y) = (x < y)"

text \<open>Every exception of the program is a value; a function that may throw returns a sum.\<close>

datatype error = TypeError | SyntaxError | IOError | FileNotFound string | UnsupportedFormat string

text \<open>
  The conversions of strings to numbers and of numbers to strings, and the parser
  \<^verbatim>\<open>JSON.parse\<close>, are built-ins of the language: the first two depend on decimal rounding,
  the third is a full grammar. They are parameters of the embedding, and every theorem holds
  for each choice of them. \<^verbatim>\<open>JSON.parse\<close> returns a value or throws a SyntaxError.
\<close>

record builtins =
  StringToNumber :: "string \<Rightarrow> jsnum"
  NumberToString :: "jsnum \<Rightarrow> string"
  JSON_parse :: "string \<Rightarrow> error + jvalue"

fun join :: "string \<Rightarrow> string list \<Rightarrow> string" where
  "join sep [] = []"
| "join sep [s] = s"
| "join sep (s # t # ss) = s @ sep @ join sep (t # ss)"

text \<open>
  \<^verbatim>\<open>String(v)\<close>, which a template literal applies to what it interpolates, and \<^verbatim>\<open>Number(v)\<close>
  convert an object through its methods \<^verbatim>\<open>valueOf\<close> and \<^verbatim>\<open>toString\<close>. An object built by
  \<^verbatim>\<open>JSON.parse\<close> or by the line parser inherits both from \<^verbatim>\<open>Object.prototype\<close>, unless it has an
  own property of that name, whose value is data and cannot be called. The inherited
  \<^verbatim>\<open>valueOf\<close> returns the object itself, which is no primitive, so either conversion ends with
  \<^verbatim>\<open>toString\<close>: the inherited one gives \<^verbatim>\<open>[object Object]\<close>, and an own property \<^verbatim>\<open>toString\<close>
  leaves no method to call, which is a TypeError. An array is converted by joining the texts of
  its elements with commas, null and undefined elements being empty; the first element whose
  conversion throws ends the conversion of the array.
\<close>

fun allOrError :: "(error + 'a) list \<Rightarrow> error + 'a list" where
  "allOrError [] = Inr []"
| "allOrError (r # rs) =
     (case r of
        Inl e \<Rightarrow> Inl e
      | Inr x \<Rightarrow> (case allOrError rs of Inl e \<Rightarrow> Inl e | Inr xs \<Rightarrow> Inr (x # xs)))"

fun ToString :: "builtins \<Rightarrow> jvalue \<Rightarrow> error + string" where
  "ToString B JUndefined = Inr ''undefined''"
| "ToString B JNull = Inr ''null''"
| "ToString B (JBool b) = Inr (if b then ''true'' else ''false'')"
| "ToString B (JNum n) = Inr (NumberToString B n)"
| "ToString B (JStr s) = Inr s"
| "ToString B (JArr xs) =
     (case allOrError
             (map (\<lambda>x. if x = JNull \<or> x = JUndefined then Inr [] else ToString B x) xs) of
        Inl e \<Rightarrow> Inl e
      | Inr ss \<Rightarrow> Inr (join '','' ss))"
| "ToString B (JObj kvs) =
     (if ''toString'' \<in> set (map fst kvs) then Inl TypeError else Inr ''[object Object]'')"

text \<open>\<^verbatim>\<open>Number(v)\<close>: arrays and objects are converted through their text.\<close>

fun Number :: "builtins \<Rightarrow> jvalue \<Rightarrow> error + jsnum" where
  "Number B JUndefined = Inr NaN"
| "Number B JNull = Inr (Fin 0)"
| "Number B (JBool b) = Inr (if b then Fin 1 else Fin 0)"
| "Number B (JNum n) = Inr n"
| "Number B (JStr s) = Inr (StringToNumber B s)"
| "Number B (JArr xs) =
     (case ToString B (JArr xs) of Inl e \<Rightarrow> Inl e | Inr s \<Rightarrow> Inr (StringToNumber B s))"
| "Number B (JObj kvs) =
     (case ToString B (JObj kvs) of Inl e \<Rightarrow> Inl e | Inr s \<Rightarrow> Inr (StringToNumber B s))"


section \<open>Change records and impact records\<close>

text \<open>
  A change record is the object literal the differ pushes: \<^verbatim>\<open>{type, path, value}\<close> for an added
  or removed key, \<^verbatim>\<open>{type, path, oldValue, newValue}\<close> for a modified one. A property the
  literal does not set reads as \<^verbatim>\<open>undefined\<close>.
\<close>

datatype change_type = added | removed | modified

record change =
  type :: change_type
  path :: string
  cvalue :: jvalue
  oldValue :: jvalue
  newValue :: jvalue

datatype level = low | medium | high | critical


datatype category = security | performance | configuration | general

text \<open>
  The texts of an impact record are template literals. The embedding keeps which template was
  chosen and what is interpolated into it, not the rendered Russian text: the two numbers of
  the timeout template, the texts of the two values of the activity template, the two type
  names of the type template.
\<close>

datatype title =
    NoTitle
  | RemovedField string
  | AddedField string
  | ChangedValue string

datatype description =
    NoDescription
  | RemovalMayBreak
  | NewField
  | TimeoutReduced jsnum jsnum
  | ActivityFlagChanged string string
  | DataTypeChanged jstype jstype

datatype recommendation =
    NoRecommendation
  | CheckFieldUnused
  | CheckNewValueSufficient
  | CriticalCheckInfluence

record impact =
  level :: level
  ipath :: string
  title :: title
  description :: description
  recommendation :: recommendation
  changeType :: change_type
  category :: category

section \<open>The structural differ\<close>


text \<open>
  \<^verbatim>\<open>JSON.stringify\<close> is used only to compare two serialisations. A serialisation is kept as
  its sequence of JSON tokens: two texts produced by \<^verbatim>\<open>JSON.stringify\<close> are equal exactly when
  their token sequences are, since the rendering of finite numbers and the escaping of strings are
  injective. \<^verbatim>\<open>undefined\<close> has no serialisation (the result is \<^verbatim>\<open>undefined\<close>, here \<open>None\<close>);
  inside an array it is written \<^verbatim>\<open>null\<close>, inside an object its property is left out;
  NaN and the infinities are written \<^verbatim>\<open>null\<close>.
\<close>

datatype jtoken =
    LBrace | RBrace | LBracket | RBracket | Comma | Colon
  | NullTok | TrueTok | FalseTok | NumTok rat | StrTok string

fun separate :: "'a \<Rightarrow> 'a list list \<Rightarrow> 'a list" where
  "separate sep [] = []"
| "separate sep [x] = x"
| "separate sep (x # y # ys) = x @ sep # separate sep (y # ys)"

fun JSON_stringify :: "jvalue \<Rightarrow> jtoken list option" where
  "JSON_stringify JUndefined = None"
| "JSON_stringify JNull = Some [NullTok]"
| "JSON_stringify (JBool b) = Some [if b then TrueTok else FalseTok]"
| "JSON_stringify (JNum n) = Some [case n of Fin q \<Rightarrow> NumTok q | _ \<Rightarrow> NullTok]"
| "JSON_stringify (JStr s) = Some [StrTok s]"
| "JSON_stringify (JArr xs) =
     Some (LBracket #
           separate Comma (map (\<lambda>x. case JSON_stringify x of None \<Rightarrow> [NullTok] | Some t \<Rightarrow> t) xs)
           @ [RBracket])"
| "JSON_stringify (JObj kvs) =
     Some (LBrace #
           separate Comma
             (concat (map (\<lambda>(k, v). case JSON_stringify v of
                                        None \<Rightarrow> [] | Some t \<Rightarrow> [StrTok k # Colon # t]) kvs))
           @ [RBrace])"


text \<open>\<^verbatim>\<open>v || {}\<close> is \<open>orEmpty v\<close>.\<close>

fun truthy :: "jvalue \<Rightarrow> bool" where
  "truthy JUndefined = False"
| "truthy JNull = False"
| "truthy (JBool b) = b"
| "truthy (JNum n) = (n \<noteq> Fin 0 \<and> n \<noteq> NaN)"
| "truthy (JStr s) = (s \<noteq> [])"
| "truthy (JArr xs) = True"
| "truthy (JObj kvs) = True"

definition orEmpty :: "jvalue \<Rightarrow> jvalue" where
  "orEmpty v = (if truthy v then v else JObj [])"


text \<open>
  The own property names of a value. An array has its indices, written in decimal, and
  \<^verbatim>\<open>length\<close>, which is not enumerable; a string primitive answers \<^verbatim>\<open>Object.keys\<close> and property
  reads like an array of its characters, but the operator \<^verbatim>\<open>in\<close> throws a TypeError on every
  primitive. \<^verbatim>\<open>Object.keys\<close> is only called on \<^verbatim>\<open>v || {}\<close>, never on null or undefined.
\<close>

fun decimal :: "nat \<Rightarrow> string" where
  "decimal n =
     (if n < 10 then [''0123456789'' ! n]
      else decimal (n div 10) @ [''0123456789'' ! (n mod 10)])"

declare decimal.simps [simp del]

fun Object_keys :: "jvalue \<Rightarrow> string list" where
  "Object_keys (JObj kvs) = map fst kvs"
| "Object_keys (JArr xs) = map decimal [0..<length xs]"
| "Object_keys (JStr s) = map decimal [0..<length s]"
| "Object_keys v = []"


text \<open>The index that a property name denotes, if it is below the length.\<close>

definition indexOf :: "nat \<Rightarrow> string \<Rightarrow> nat option" where
  "indexOf n key = find (\<lambda>i. decimal i = key) [0..<n]"


text \<open>
  \<^verbatim>\<open>Object.entries\<close> lists the properties whose names are array indices (canonical decimal
  numerals below \<open>2\<^sup>3\<^sup>2 - 1\<close>) first, in ascending numeric order, and then the other
  properties in the order of their creation.
\<close>

definition digitValue :: "char \<Rightarrow> int option" where
  "digitValue c = map_of (zip ''0123456789'' [0, 1, 2, 3, 4, 5, 6, 7, 8, 9]) c"

fun parseDigits :: "int \<Rightarrow> string \<Rightarrow> int option" where
  "parseDigits acc [] = Some acc"
| "parseDigits acc (c # cs) =
     (case digitValue c of None \<Rightarrow> None | Some d \<Rightarrow> parseDigits (10 * acc + d) cs)"

fun arrayIndex :: "string \<Rightarrow> int option" where
  "arrayIndex [] = None"
| "arrayIndex (c # cs) =
     (if c = CHR ''0'' \<and> cs \<noteq> [] then None
      else case parseDigits 0 (c # cs) of
             None \<Rightarrow> None
           | Some n \<Rightarrow> if n < 4294967295 then Some n else None)"

definition Object_entries :: "(string \<times> 'a) list \<Rightarrow> (string \<times> 'a) list" where
  "Object_entries kvs =
     sort_key (\<lambda>(k, v). case arrayIndex k of Some n \<Rightarrow> n | None \<Rightarrow> 0)
       (filter (\<lambda>(k, v). arrayIndex k \<noteq> None) kvs)
     @ filter (\<lambda>(k, v). arrayIndex k = None) kvs"

text \<open>
  \<^verbatim>\<open>key in obj\<close> and \<^verbatim>\<open>obj?.[key]\<close> on own properties. For an object or an array the
  operator is also true of the names of the members it inherits, and reading such a name yields
  the inherited function or prototype object; these are not \<open>jvalue\<close>s and are not modelled.
\<close>

fun hasProperty :: "string \<Rightarrow> jvalue \<Rightarrow> error + bool" where
  "hasProperty key (JObj kvs) = Inr (key \<in> set (map fst kvs))"
| "hasProperty key (JArr xs) = Inr (indexOf (length xs) key \<noteq> None \<or> key = ''length'')"
| "hasProperty key v = Inl TypeError"

fun getProp :: "jvalue \<Rightarrow> string \<Rightarrow> jvalue" where
  "getProp (JObj kvs) key = (case map_of kvs key of None \<Rightarrow> JUndefined | Some v \<Rightarrow> v)"
| "getProp (JArr xs) key =
     (case indexOf (length xs) key of
        Some i \<Rightarrow> xs ! i
      | None \<Rightarrow> if key = ''length'' then JNum (Fin (of_nat (length xs))) else JUndefined)"
| "getProp (JStr s) key =
     (case indexOf (length s) key of
        Some i \<Rightarrow> JStr [s ! i]
      | None \<Rightarrow> if key = ''length'' then JNum (Fin (of_nat (length s))) else JUndefined)"
| "getProp v key = JUndefined"


text \<open>\<^verbatim>\<open>new Set([...])\<close> iterates in insertion order, each element once.\<close>

fun newSet :: "'a list \<Rightarrow> 'a list" where
  "newSet [] = []"
| "newSet (x # xs) = x # newSet (filter (\<lambda>y. y \<noteq> x) xs)"

fun isArray :: "jvalue \<Rightarrow> bool" where
  "isArray (JArr xs) = True"
| "isArray v = False"


text \<open>
  The loop pushes the records of one key after those of the keys before it; an exception
  at one key ends the call and nothing is returned.
\<close>

fun collect :: "(error + 'a list) list \<Rightarrow> error + 'a list" where
  "collect [] = Inr []"
| "collect (r # rs) =
     (case r of
        Inl e \<Rightarrow> Inl e
      | Inr xs \<Rightarrow> (case collect rs of Inl e \<Rightarrow> Inl e | Inr ys \<Rightarrow> Inr (xs @ ys)))"


text \<open>The recursive call is on a property value, which is smaller than the value holding it.\<close>

lemma size_map_of: "map_of kvs k = Some v \<Longrightarrow> size v < size (JObj kvs)"
  by (induction kvs) (auto split: if_splits)

lemma size_member: "x \<in> set xs \<Longrightarrow> size x < size (JArr xs)"
  by (induction xs) auto

lemma size_nth: "i < length xs \<Longrightarrow> size (xs ! i) < size (JArr xs)"
  by (rule size_member) simp

lemma indexOf_less: "indexOf n key = Some i \<Longrightarrow> i < n"
  by (auto simp: indexOf_def find_Some_iff)

lemma size_getProp:
  assumes "typeof (getProp v key) = TObject" and "getProp v key \<noteq> JNull"
  shows "size (getProp v key) < size v"
proof (cases v)
  case (JArr xs)
  show ?thesis
  proof (cases "indexOf (length xs) key")
    case None
    with JArr assms show ?thesis by (simp split: if_splits)
  next
    case (Some i)
    then have "i < length xs" by (rule indexOf_less)
    then have "size (xs ! i) < size (JArr xs)" by (rule size_nth)
    with JArr Some show ?thesis by simp
  qed
next
  case (JObj kvs)
  show ?thesis
  proof (cases "map_of kvs key")
    case None
    with JObj assms show ?thesis by simp
  next
    case (Some x)
    then have "size x < size (JObj kvs)" by (rule size_map_of)
    with JObj Some show ?thesis by simp
  qed
next
  case (JStr s)
  with assms show ?thesis by (simp split: option.splits if_splits)
qed (use assms in simp_all)


text \<open>
  \<^verbatim>\<open>compareObjects(objA, objB, path = '')\<close>. The parameter \<^verbatim>\<open>path\<close> is called \<open>parent\<close> here.
\<close>

function compareObjects :: "jvalue \<Rightarrow> jvalue \<Rightarrow> string \<Rightarrow> error + change list" where
  "compareObjects objA objB parent =
     collect (map (\<lambda>key.
        let currentPath = (if parent \<noteq> [] then parent @ ''.'' @ key else key);
            valueA = getProp objA key;
            valueB = getProp objB key
        in case hasProperty key (orEmpty objA) of
             Inl e \<Rightarrow> Inl e
           | Inr inA \<Rightarrow>
               if \<not> inA
               then Inr [\<lparr>type = added, path = currentPath, cvalue = valueB,
                          oldValue = JUndefined, newValue = JUndefined\<rparr>]
               else (case hasProperty key (orEmpty objB) of
                       Inl e \<Rightarrow> Inl e
                     | Inr inB \<Rightarrow>
                         if \<not> inB
                         then Inr [\<lparr>type = removed, path = currentPath, cvalue = valueA,
                                    oldValue = JUndefined, newValue = JUndefined\<rparr>]
                         else if typeof valueA = TObject \<and> typeof valueB = TObject
                                 \<and> valueA \<noteq> JNull \<and> valueB \<noteq> JNull
                                 \<and> \<not> isArray valueA \<and> \<not> isArray valueB
                         then compareObjects valueA valueB currentPath
                         else if JSON_stringify valueA \<noteq> JSON_stringify valueB
                         then Inr [\<lparr>type = modified, path = currentPath, cvalue = JUndefined,
                                    oldValue = valueA, newValue = valueB\<rparr>]
                         else Inr []))
       (newSet (Object_keys (orEmpty objA) @ Object_keys (orEmpty objB))))"
  by pat_completeness auto
termination
  by (relation "measure (\<lambda>(a, b, p). size a)") (auto intro: size_getProp)

declare compareObjects.simps [simp del]

text \<open>The body of the loop for one key, and the keys the loop visits, named for the proofs.\<close>

definition compareKey :: "jvalue \<Rightarrow> jvalue \<Rightarrow> string \<Rightarrow> string \<Rightarrow> error + change list" where
  "compareKey objA objB parent key =
       (let currentPath = (if parent \<noteq> [] then parent @ ''.'' @ key else key);
            valueA = getProp objA key;
            valueB = getProp objB key
        in case hasProperty key (orEmpty objA) of
             Inl e \<Rightarrow> Inl e
           | Inr inA \<Rightarrow>
               if \<not> inA
               then Inr [\<lparr>type = added, path = currentPath, cvalue = valueB,
                          oldValue = JUndefined, newValue = JUndefined\<rparr>]
               else (case hasProperty key (orEmpty objB) of
                       Inl e \<Rightarrow> Inl e
                     | Inr inB \<Rightarrow>
                         if \<not> inB
                         then Inr [\<lparr>type = removed, path = currentPath, cvalue = valueA,
                                    oldValue = JUndefined, newValue = JUndefined\<rparr>]
                         else if typeof valueA = TObject \<and> typeof valueB = TObject
                                 \<and> valueA \<noteq> JNull \<and> valueB \<noteq> JNull
                                 \<and> \<not> isArray valueA \<and> \<not> isArray valueB
                         then compareObjects valueA valueB currentPath
                         else if JSON_stringify valueA \<noteq> JSON_stringify valueB
                         then Inr [\<lparr>type = modified, path = currentPath, cvalue = JUndefined,
                                    oldValue = valueA, newValue = valueB\<rparr>]
                         else Inr []))"

definition allKeys :: "jvalue \<Rightarrow> jvalue \<Rightarrow> string list" where
  "allKeys objA objB = newSet (Object_keys (orEmpty objA) @ Object_keys (orEmpty objB))"

text \<open>The (path, value) pairs of the records of kind added, and of kind removed.\<close>

definition addedPairs :: "change list \<Rightarrow> (string \<times> jvalue) set" where
  "addedPairs cs = set (map (\<lambda>c. (path c, cvalue c)) (filter (\<lambda>c. type c = added) cs))"

definition removedPairs :: "change list \<Rightarrow> (string \<times> jvalue) set" where
  "removedPairs cs = set (map (\<lambda>c. (path c, cvalue c)) (filter (\<lambda>c. type c = removed) cs))"

text \<open>
  The roots on which the operator \<^verbatim>\<open>in\<close> throws: a primitive that is truthy, so that
  \<^verbatim>\<open>v || {}\<close> is the primitive itself (a non-empty string, a number other than 0 and NaN,
  \<^verbatim>\<open>true\<close>). Of these only a non-empty string has keys of its own.
\<close>

definition truthyPrimitive :: "jvalue \<Rightarrow> bool" where
  "truthyPrimitive v = (truthy v \<and> typeof v \<noteq> TObject)"

definition nonEmptyString :: "jvalue \<Rightarrow> bool" where
  "nonEmptyString v = (case v of JStr (c # s) \<Rightarrow> True | _ \<Rightarrow> False)"

text \<open>
  Deep equality in the words of the specification, for comparison with what the code tests:
  value-based, recursive through sequences and mappings, the order of the keys of a mapping
  being irrelevant.
\<close>

fun deepEqual :: "jvalue \<Rightarrow> jvalue \<Rightarrow> bool" where
  "deepEqual (JArr xs) (JArr ys) = list_all2 deepEqual xs ys"
| "deepEqual (JObj kvs) (JObj lws) =
     (list_all (\<lambda>k. k \<in> set (map fst kvs)) (map fst lws)
      \<and> list_all (\<lambda>(k, v). case map_of lws k of None \<Rightarrow> False | Some w \<Rightarrow> deepEqual v w) kvs)"
| "deepEqual a b = (a = b)"


text \<open>
  Two results mirror each other when both are lists of records and the pairs added in one are
  the pairs removed in the other; a record differs when the serialisations of its old and new
  value do.
\<close>

definition mirrored :: "error + change list \<Rightarrow> error + change list \<Rightarrow> bool" where
  "mirrored r r' =
     (case (r, r') of
        (Inr cs, Inr ds) \<Rightarrow> addedPairs cs = removedPairs ds \<and> removedPairs cs = addedPairs ds
      | _ \<Rightarrow> False)"

definition differing :: "change \<Rightarrow> bool" where
  "differing c = (JSON_stringify (oldValue c) \<noteq> JSON_stringify (newValue c))"

text \<open>The call of \<^verbatim>\<open>main\<close>, which leaves the third parameter at its default.\<close>

definition diff :: "jvalue \<Rightarrow> jvalue \<Rightarrow> error + change list" where
  "diff a b = compareObjects a b []"

section \<open>Pattern tests on the last key\<close>

definition toLowerCase :: "string \<Rightarrow> string" where
  "toLowerCase s =
     map (\<lambda>c. case map_of (zip ''ABCDEFGHIJKLMNOPQRSTUVWXYZ'' ''abcdefghijklmnopqrstuvwxyz'') c of
                 None \<Rightarrow> c | Some d \<Rightarrow> d) s"

fun startsWith :: "string \<Rightarrow> string \<Rightarrow> bool" where
  "startsWith s [] = True"
| "startsWith [] (p # ps) = False"
| "startsWith (c # cs) (p # ps) = (c = p \<and> startsWith cs ps)"

fun contains :: "string \<Rightarrow> string \<Rightarrow> bool" where
  "contains [] p = (p = [])"
| "contains (c # cs) p = (startsWith (c # cs) p \<or> contains cs p)"

text \<open>\<^verbatim>\<open>s.split(c)\<close> for a separator of one character; the result is never empty.\<close>

fun split :: "char \<Rightarrow> string \<Rightarrow> string list" where
  "split c [] = [[]]"
| "split c (x # xs) =
     (if x = c then [] # split c xs
      else (case split c xs of l # ls \<Rightarrow> (x # l) # ls | [] \<Rightarrow> [[x]]))"

text \<open>\<^verbatim>\<open>change.path.split('.').pop()\<close>: the text after the last dot, the whole path if it has none.\<close>

definition lastKey :: "string \<Rightarrow> string" where
  "lastKey p = last (split (CHR ''.'') p)"

text \<open>
  The three pattern lists of the classifier. Every pattern carries the flag \<^verbatim>\<open>i\<close>, which
  folds the case of ASCII letters only (a non-ASCII character never folds to an ASCII one),
  so each test runs on the lower-cased key.
  \<^verbatim>\<open>/^(api[_-]?key|secret|password|token|auth)/i\<close>,
  \<^verbatim>\<open>/^(database|db)[_.-](host|url|connection)/i\<close>,
  \<^verbatim>\<open>/^(enabled?|active|disabled?)$/i\<close>.
\<close>

definition CRITICAL_PATTERNS :: "string \<Rightarrow> bool" where
  "CRITICAL_PATTERNS k =
     (let l = toLowerCase k in
      list_ex (startsWith l)
        [''apikey'', ''api_key'', ''api-key'', ''secret'', ''password'', ''token'', ''auth'']
      \<or> list_ex (startsWith l)
        (concat (map (\<lambda>d. concat (map (\<lambda>s. map (\<lambda>h. d @ s @ h) [''host'', ''url'', ''connection''])
                                        [''_'', ''.'', ''-'']))
                     [''database'', ''db'']))
      \<or> l \<in> set [''enable'', ''enabled'', ''active'', ''disable'', ''disabled''])"

text \<open>
  \<^verbatim>\<open>/timeout/i, /limit/i, /max[_-]?/i, /min[_-]?/i, /threshold/i, /retry/i, /^port$/i, /^host$/i,
  /^endpoint$/i, /^url$/i\<close>. The optional character class at the end of \<^verbatim>\<open>max[_-]?\<close> and
  \<^verbatim>\<open>min[_-]?\<close> may match nothing, so these two find \<^verbatim>\<open>max\<close> and \<^verbatim>\<open>min\<close> anywhere.
\<close>

definition HIGH_PATTERNS :: "string \<Rightarrow> bool" where
  "HIGH_PATTERNS k =
     (let l = toLowerCase k in
      list_ex (contains l) [''timeout'', ''limit'', ''max'', ''min'', ''threshold'', ''retry'']
      \<or> l \<in> set [''port'', ''host'', ''endpoint'', ''url''])"

text \<open>\<^verbatim>\<open>/^name$/i, /^type$/i, /^version$/i, /^format$/i, /^encoding$/i, /^locale$/i, /^timezone$/i\<close>.\<close>

definition MEDIUM_PATTERNS :: "string \<Rightarrow> bool" where
  "MEDIUM_PATTERNS k =
     (toLowerCase k \<in> set [''name'', ''type'', ''version'', ''format'', ''encoding'', ''locale'',
                            ''timezone''])"

text \<open>The two tests of the modified branch: \<^verbatim>\<open>/timeout/i\<close> and \<^verbatim>\<open>/^(enabled?|active)$/i\<close>.\<close>

definition timeoutKey :: "string \<Rightarrow> bool" where
  "timeoutKey k = contains (toLowerCase k) ''timeout''"

definition activityKey :: "string \<Rightarrow> bool" where
  "activityKey k = (toLowerCase k \<in> set [''enable'', ''enabled'', ''active''])"

section \<open>The risk classifier\<close>

text \<open>The baseline tier: the first pattern list that matches decides level and category.\<close>

definition baseline :: "string \<Rightarrow> level \<times> category" where
  "baseline k =
     (if CRITICAL_PATTERNS k then (critical, security)
      else if HIGH_PATTERNS k then (high, performance)
      else if MEDIUM_PATTERNS k then (medium, configuration)
      else (low, general))"

text \<open>
  The three \<^verbatim>\<open>if\<close> statements of the modified branch, each a function of the values that
  \<^verbatim>\<open>level, title, description, recommendation, category\<close> have when it is reached. They run in
  sequence, each overwriting what the one before assigned. The first converts both values with
  \<^verbatim>\<open>Number\<close> and the second interpolates both into a template, old value first; either can
  throw.
\<close>

definition timeoutRule :: "builtins \<Rightarrow> change \<Rightarrow> impact \<Rightarrow> error + impact" where
  "timeoutRule B c i =
     (if timeoutKey (lastKey (path c))
      then (case Number B (oldValue c) of
              Inl e \<Rightarrow> Inl e
            | Inr oldVal \<Rightarrow>
                (case Number B (newValue c) of
                   Inl e \<Rightarrow> Inl e
                 | Inr newVal \<Rightarrow>
                     if \<not> isNaN oldVal \<and> \<not> isNaN newVal \<and> num_less newVal oldVal
                     then Inr (i\<lparr>level := high,
                                 description := TimeoutReduced oldVal newVal,
                                 recommendation := CheckNewValueSufficient\<rparr>)
                     else Inr i))
      else Inr i)"

definition activityRule :: "builtins \<Rightarrow> change \<Rightarrow> impact \<Rightarrow> error + impact" where
  "activityRule B c i =
     (if activityKey (lastKey (path c))
      then (case ToString B (oldValue c) of
              Inl e \<Rightarrow> Inl e
            | Inr old \<Rightarrow>
                (case ToString B (newValue c) of
                   Inl e \<Rightarrow> Inl e
                 | Inr new \<Rightarrow>
                     Inr (i\<lparr>level := critical,
                            description := ActivityFlagChanged old new,
                            recommendation := CriticalCheckInfluence\<rparr>)))
      else Inr i)"

definition typeRule :: "change \<Rightarrow> impact \<Rightarrow> impact" where
  "typeRule c i =
     (if typeof (oldValue c) \<noteq> typeof (newValue c)
      then i\<lparr>level := high,
             description := DataTypeChanged (typeof (oldValue c)) (typeof (newValue c))\<rparr>
      else i)"

text \<open>
  The body of the loop of \<^verbatim>\<open>analyzeImpactLocal\<close> up to the final test: the object literal
  that the loop would push, or the exception that ends the loop.
\<close>

definition classify :: "builtins \<Rightarrow> change \<Rightarrow> error + impact" where
  "classify B c =
     (let k = lastKey (path c);
          i0 = \<lparr>level = fst (baseline k), ipath = path c, title = NoTitle,
                description = NoDescription, recommendation = NoRecommendation,
                changeType = type c, category = snd (baseline k)\<rparr>
      in case type c of
           removed \<Rightarrow>
             Inr (i0\<lparr>level := (if level i0 = low then medium else level i0),
                     title := RemovedField k,
                     description := RemovalMayBreak,
                     recommendation := CheckFieldUnused\<rparr>)
         | added \<Rightarrow>
             Inr (i0\<lparr>title := AddedField k, description := NewField\<rparr>)
         | modified \<Rightarrow>
             (case timeoutRule B c (i0\<lparr>title := ChangedValue k\<rparr>) of
                Inl e \<Rightarrow> Inl e
              | Inr i2 \<Rightarrow>
                  (case activityRule B c i2 of
                     Inl e \<Rightarrow> Inl e
                   | Inr i3 \<Rightarrow> Inr (typeRule c i3))))"

text \<open>
  The loop: an impact is pushed when its level is not low or the change is a removal. An
  exception in the body for one record ends the call, and no list is returned.
\<close>

fun analyzeImpactLocal :: "builtins \<Rightarrow> change list \<Rightarrow> error + impact list" where
  "analyzeImpactLocal B [] = Inr []"
| "analyzeImpactLocal B (c # cs) =
     (case classify B c of
        Inl e \<Rightarrow> Inl e
      | Inr i \<Rightarrow>
          (case analyzeImpactLocal B cs of
             Inl e \<Rightarrow> Inl e
           | Inr impacts \<Rightarrow>
               Inr ((if level i \<noteq> low \<or> type c = removed then [i] else []) @ impacts)))"



section \<open>The history analyzer\<close>

text \<open>
  A history entry as \<^verbatim>\<open>saveToHistory\<close> stores it. The analyzer reads \<^verbatim>\<open>h.changes || []\<close>, so
  an entry may lack its list of changes.
\<close>

record summary =
  total :: nat
  addedCount :: nat
  removedCount :: nat
  modifiedCount :: nat

record history_entry =
  name :: string
  timestamp :: string
  fileA :: string
  fileB :: string
  changes :: "change list option"
  impacts :: "impact list"
  riskLevel :: string
  summary :: summary

datatype insight = frequent_changes "string list"

text \<open>
  \<^verbatim>\<open>pathCounts[p] = (pathCounts[p] || 0) + 1\<close> on the object literal \<^verbatim>\<open>{}\<close> used as a
  dictionary, kept as the list of its own properties in the order of their creation.
  The literal inherits the members of \<^verbatim>\<open>Object.prototype\<close>. Reading it at one of their names,
  while it has no own property of that name, yields the inherited function (the prototype
  object itself for \<^verbatim>\<open>__proto__\<close>), which is truthy, and adding 1 to that concatenates text.
  The assignment then creates an own property holding the text, except at \<^verbatim>\<open>__proto__\<close>, where
  it reaches the inherited setter, which ignores a value that is not an object. Adding 1 to a
  text gives a text again.
\<close>

definition Object_prototype :: "string list" where
  "Object_prototype =
     [''constructor'', ''__defineGetter__'', ''__defineSetter__'', ''hasOwnProperty'',
      ''__lookupGetter__'', ''__lookupSetter__'', ''isPrototypeOf'', ''propertyIsEnumerable'',
      ''toString'', ''valueOf'', ''__proto__'', ''toLocaleString'']"

datatype counter = Count nat | Text

fun plusOne :: "counter \<Rightarrow> counter" where
  "plusOne (Count n) = Count (n + 1)"
| "plusOne Text = Text"

fun bump :: "(string \<times> counter) list \<Rightarrow> string \<Rightarrow> (string \<times> counter) list" where
  "bump [] p =
     (if p \<in> set Object_prototype
      then (if p = ''__proto__'' then [] else [(p, Text)])
      else [(p, Count (0 + 1))])"
| "bump ((k, v) # kvs) p = (if k = p then (k, plusOne v) # kvs else (k, v) # bump kvs p)"

text \<open>
  The steps of \<^verbatim>\<open>analyzeHistory\<close>: the changes of all entries, the count of each path, the
  entries with a count of at least 3 sorted by the comparator \<^verbatim>\<open>b[1] - a[1]\<close> (the sort is
  stable), and the insight built from the first five. The function reads \<^verbatim>\<open>history\<close> and
  assigns to nothing reachable from it, so its only result is the list of insights.
\<close>

definition allChanges :: "history_entry list \<Rightarrow> change list" where
  "allChanges history = concat (map (\<lambda>h. case changes h of None \<Rightarrow> [] | Some cs \<Rightarrow> cs) history)"

definition pathCounts :: "history_entry list \<Rightarrow> (string \<times> counter) list" where
  "pathCounts history = foldl bump [] (map path (allChanges history))"

text \<open>
  \<^verbatim>\<open>count >= 3\<close> converts a text to NaN and is false for it, so only numbers pass the filter and
  reach the comparator and the template \<^verbatim>\<open>`${path} (${count}x)`\<close>.
\<close>

fun atLeast3 :: "counter \<Rightarrow> bool" where
  "atLeast3 (Count n) = (n \<ge> 3)"
| "atLeast3 Text = False"

fun number :: "counter \<Rightarrow> nat" where
  "number (Count n) = n"
| "number Text = 0"

definition frequentlyChanged :: "history_entry list \<Rightarrow> (string \<times> counter) list" where
  "frequentlyChanged history =
     sort_key (\<lambda>(p, count). - int (number count))
       (filter (\<lambda>(p, count). atLeast3 count) (Object_entries (pathCounts history)))"

definition analyzeHistory :: "history_entry list \<Rightarrow> insight list" where
  "analyzeHistory history =
     (if length history < 3 then []
      else (let fc = frequentlyChanged history
            in if length fc > 0
               then [frequent_changes
                       (map (\<lambda>(p, count). p @ '' ('' @ decimal (number count) @ ''x)'')
                            (take 5 fc))]
               else []))"

text \<open>How often a path occurs among the changes of all entries.\<close>

definition occurrences :: "history_entry list \<Rightarrow> string \<Rightarrow> nat" where
  "occurrences history p = count_list (map path (allChanges history)) p"

text \<open>No change path of the history is the name of a member of \<^verbatim>\<open>Object.prototype\<close>.\<close>

definition ordinaryPaths :: "history_entry list \<Rightarrow> bool" where
  "ordinaryPaths h = (set (map path (allChanges h)) \<inter> set Object_prototype = {})"

text \<open>An entry as stored for a run in which the given paths were modified.\<close>

definition entryModifying :: "string list \<Rightarrow> history_entry" where
  "entryModifying ps = \<lparr>name = ''a.json -> b.json'', timestamp = ''2024-01-01T00:00:00.000Z'',
     fileA = ''a.json'', fileB = ''b.json'',
     changes = Some (map (\<lambda>p. \<lparr>type = modified, path = p, cvalue = JUndefined,
                                oldValue = JNum (Fin 1), newValue = JNum (Fin 2)\<rparr>) ps),
     impacts = [], riskLevel = ''low'',
     summary = \<lparr>total = length ps, addedCount = 0, removedCount = 0, modifiedCount = length ps\<rparr>\<rparr>"


section \<open>The document loader\<close>

text \<open>
  The file system as the loader sees it: a path names nothing, or something that exists but
  cannot be read as a file, or a file with its text.
\<close>

datatype fsnode = Missing | Unreadable | Content string

type_synonym filesystem = "string \<Rightarrow> fsnode"

definition existsSync :: "filesystem \<Rightarrow> string \<Rightarrow> bool" where
  "existsSync fs p = (fs p \<noteq> Missing)"

definition readFileSync :: "filesystem \<Rightarrow> string \<Rightarrow> error + string" where
  "readFileSync fs p = (case fs p of Content c \<Rightarrow> Inr c | _ \<Rightarrow> Inl IOError)"

text \<open>
  \<^verbatim>\<open>path.extname\<close> for POSIX paths: trailing slashes are dropped, the last component is taken,
  and the extension runs from its last dot to its end; there is none when the component has
  no dot, begins with its last dot, or is \<^verbatim>\<open>..\<close>.
\<close>

definition extname :: "string \<Rightarrow> string" where
  "extname p =
     (let base = last (split (CHR ''/'') (rev (dropWhile (\<lambda>c. c = CHR ''/'') (rev p))));
          dot = length base - length (last (split (CHR ''.'') base)) - 1
      in if CHR ''.'' \<notin> set base \<or> dot = 0 \<or> base = ''..'' then [] else drop dot base)"

text \<open>
  The line parser \<^verbatim>\<open>parseYAML\<close>. White space is the ASCII white space; \<^verbatim>\<open>trim\<close> and
  the classes \<^verbatim>\<open>\s\<close> and \<^verbatim>\<open>\S\<close> also know white space beyond ASCII, which is not modelled.
\<close>

definition isSpace :: "char \<Rightarrow> bool" where
  "isSpace c = (c \<in> set [CHR 0x09, CHR 0x0A, CHR 0x0B, CHR 0x0C, CHR 0x0D, CHR '' ''])"

definition trim :: "string \<Rightarrow> string" where
  "trim s = rev (dropWhile isSpace (rev (dropWhile isSpace s)))"

definition endsWith :: "string \<Rightarrow> string \<Rightarrow> bool" where
  "endsWith s p = startsWith (rev s) (rev p)"

text \<open>
  \<^verbatim>\<open>/^([^:]+):\s*(.*)$/\<close> on a trimmed line: the key is the text before the first colon and
  is not empty; the value is what follows the colon and the white space after it, and holds no
  line terminator, which the dot does not match.
\<close>

definition matchKeyValue :: "string \<Rightarrow> (string \<times> string) option" where
  "matchKeyValue t =
     (let key = takeWhile (\<lambda>c. c \<noteq> CHR '':'') t;
          rest = drop (length key) t
      in if key = [] \<or> rest = [] then None
         else (let value = dropWhile isSpace (tl rest)
               in if CHR 0x0D \<in> set value then None else Some (key, value)))"

text \<open>The coercion of a value that is not empty. \<^verbatim>\<open>slice(1, -1)\<close> drops the two quotes.\<close>

definition parseScalar :: "builtins \<Rightarrow> string \<Rightarrow> jvalue" where
  "parseScalar B value =
     (let parsedValue = trim value
      in if parsedValue = ''true'' then JBool True
         else if parsedValue = ''false'' then JBool False
         else if \<not> isNaN (StringToNumber B parsedValue) \<and> parsedValue \<noteq> []
         then JNum (StringToNumber B parsedValue)
         else if startsWith parsedValue [CHR 0x22] \<and> endsWith parsedValue [CHR 0x22]
         then JStr (take (length parsedValue - 2) (drop 1 parsedValue))
         else JStr parsedValue)"

text \<open>
  \<^verbatim>\<open>parent[key] = v\<close> on the own properties of an object: an existing property keeps its
  place, a new one goes after the others, or among the array indices in numeric order when its
  name is one. At \<^verbatim>\<open>__proto__\<close> the assignment reaches the inherited setter and creates no
  own property.
\<close>

fun insertProp :: "(string \<times> jvalue) list \<Rightarrow> string \<Rightarrow> jvalue \<Rightarrow> (string \<times> jvalue) list" where
  "insertProp [] key v = [(key, v)]"
| "insertProp ((k, w) # kvs) key v =
     (case arrayIndex key of
        None \<Rightarrow> (k, w) # insertProp kvs key v
      | Some n \<Rightarrow>
          (case arrayIndex k of
             None \<Rightarrow> (key, v) # (k, w) # kvs
           | Some m \<Rightarrow> if n < m then (key, v) # (k, w) # kvs else (k, w) # insertProp kvs key v))"

definition setProp :: "(string \<times> jvalue) list \<Rightarrow> string \<Rightarrow> jvalue \<Rightarrow> (string \<times> jvalue) list" where
  "setProp kvs key v =
     (if key = ''__proto__'' then kvs
      else if key \<in> set (map fst kvs) then map (\<lambda>(k, w). if k = key then (k, v) else (k, w)) kvs
      else insertProp kvs key v)"

text \<open>
  The stack holds objects of the result by reference. Here an entry holds the path from the
  root to its object, or \<open>None\<close> for an object that is not part of the result (the object
  installed as a prototype by \<^verbatim>\<open>__proto__\<close>), and an assignment is an update at that path.
  An entry is popped before anything is assigned at or above it, so a path on the stack always
  leads to the object that was pushed.
\<close>

fun updateAt :: "string list \<Rightarrow> ((string \<times> jvalue) list \<Rightarrow> (string \<times> jvalue) list) \<Rightarrow> jvalue \<Rightarrow> jvalue" where
  "updateAt [] f (JObj kvs) = JObj (f kvs)"
| "updateAt (k # ks) f (JObj kvs) =
     JObj (map (\<lambda>(k', v). if k' = k then (k', updateAt ks f v) else (k', v)) kvs)"
| "updateAt ks f v = v"

fun popTo :: "int \<Rightarrow> (string list option \<times> int) list \<Rightarrow> (string list option \<times> int) list" where
  "popTo indent (e # e' # es) = (if snd e \<ge> indent then popTo indent (e' # es) else e # e' # es)"
| "popTo indent es = es"

definition parseLine ::
  "builtins \<Rightarrow> jvalue \<times> (string list option \<times> int) list \<Rightarrow> string \<Rightarrow>
   jvalue \<times> (string list option \<times> int) list" where
  "parseLine B st line =
     (if trim line = [] \<or> startsWith (trim line) ''#'' then st
      else (let indent = int (length (takeWhile isSpace line))
            in case matchKeyValue (trim line) of
                 None \<Rightarrow> st
               | Some (key, value) \<Rightarrow>
                   (case popTo indent (snd st) of
                      [] \<Rightarrow> st
                    | (parent, i) # stack \<Rightarrow>
                        (let assign = (\<lambda>v. case parent of
                                               None \<Rightarrow> fst st
                                             | Some p \<Rightarrow>
                                                 updateAt p (\<lambda>kvs. setProp kvs (trim key) v) (fst st))
                         in if value \<noteq> []
                            then (assign (parseScalar B value), (parent, i) # stack)
                            else (assign (JObj []),
                                  (if trim key = ''__proto__'' then None
                                   else map_option (\<lambda>p. p @ [trim key]) parent, indent)
                                  # (parent, i) # stack)))))"

definition parseYAML :: "builtins \<Rightarrow> string \<Rightarrow> jvalue" where
  "parseYAML B content = fst (foldl (parseLine B) (JObj [], [(Some [], - 1)]) (split (CHR 0x0A) content))"

text \<open>\<^verbatim>\<open>loadFile\<close>, the same in both variants of the program.\<close>

definition loadFile :: "builtins \<Rightarrow> filesystem \<Rightarrow> string \<Rightarrow> error + jvalue" where
  "loadFile B fs filePath =
     (if \<not> existsSync fs filePath then Inl (FileNotFound filePath)
      else case readFileSync fs filePath of
             Inl e \<Rightarrow> Inl e
           | Inr content \<Rightarrow>
               (let ext = toLowerCase (extname filePath)
                in if ext = ''.json'' then JSON_parse B content
                   else if ext = ''.yaml'' \<or> ext = ''.yml'' then Inr (parseYAML B content)
                   else (case JSON_parse B content of
                           Inr v \<Rightarrow> Inr v
                         | Inl e \<Rightarrow> Inl (UnsupportedFormat ext))))"

text \<open>
  \<^verbatim>\<open>loadHistory\<close>. The \<^verbatim>\<open>try\<close> block either returns the parsed content, or ends without
  returning, or throws; \<^verbatim>\<open>catch {}\<close> swallows what is thrown and \<^verbatim>\<open>return []\<close> follows. The path
  of the history file is fixed when the program starts and is a parameter here.
\<close>

definition loadHistory :: "builtins \<Rightarrow> filesystem \<Rightarrow> string \<Rightarrow> error + jvalue" where
  "loadHistory B fs HISTORY_FILE =
     (case (if existsSync fs HISTORY_FILE
            then (case readFileSync fs HISTORY_FILE of
                    Inl e \<Rightarrow> Inl e
                  | Inr content \<Rightarrow>
                      (case JSON_parse B content of Inl e \<Rightarrow> Inl e | Inr v \<Rightarrow> Inr (Some v)))
            else Inr None) of
        Inr (Some v) \<Rightarrow> Inr v
      | Inr None \<Rightarrow> Inr (JArr [])
      | Inl e \<Rightarrow> Inr (JArr []))"

text \<open>
  Concrete inputs need a concrete choice of the built-ins. This one answers as the built-ins
  of the language do on every argument it receives in the evaluations below: the strings
  converted to numbers there are not numerals and convert to NaN, no number is converted to a
  string, and the texts handed to \<^verbatim>\<open>JSON.parse\<close> are not JSON texts and raise a SyntaxError.
\<close>

definition sampleBuiltins :: builtins where
  "sampleBuiltins =
     \<lparr>StringToNumber = (\<lambda>s. NaN), NumberToString = (\<lambda>n. []),
      JSON_parse = (\<lambda>s. Inl SyntaxError)\<rparr>"

section \<open>Properties of the classifier\<close>









lemma timeoutKey_not_activityKey: "timeoutKey k \<Longrightarrow> \<not> activityKey k"
  by (auto simp: timeoutKey_def activityKey_def)










text \<open>
  C1. The claim asks for level critical whenever a key matching \<^verbatim>\<open>/^(enabled?|active)$/i\<close> is
  modified, also when the two values differ in run-time type. The code assigns critical and then,
  in the next statement, assigns high when the types differ: for \<^verbatim>\<open>enabled\<close> changing from the
  boolean \<^verbatim>\<open>true\<close> to the string \<^verbatim>\<open>"false"\<close> the record that is pushed has level high, while
  it still carries the recommendation text of the critical rule.
\<close>

theorem activity_flag_with_type_change_is_high:
  "analyzeImpactLocal B
     [\<lparr>type = modified, path = ''enabled'', cvalue = JUndefined,
        oldValue = JBool True, newValue = JStr ''false''\<rparr>] =
   Inr [\<lparr>level = high, ipath = ''enabled'', title = ChangedValue ''enabled'',
      description = DataTypeChanged TBoolean TString,
      recommendation = CriticalCheckInfluence, changeType = modified, category = security\<rparr>]"
  by code_simp

text \<open>
  C2. The claim asks that a difference in run-time type never lowers a critical baseline.
  The code assigns high without looking at the level reached so far: \<^verbatim>\<open>secret\<close> has baseline
  critical, and its change from the string \<^verbatim>\<open>"abc"\<close> to the number 123 is reported as high.
\<close>

theorem type_change_lowers_critical_baseline:
  "fst (baseline (lastKey ''secret'')) = critical \<and>
   map_sum id (map level) (analyzeImpactLocal B
     [\<lparr>type = modified, path = ''secret'', cvalue = JUndefined,
        oldValue = JStr ''abc'', newValue = JNum (Fin 123)\<rparr>]) = Inr [high]"
  by code_simp

lemma classify_modified_timeout:
  assumes "type c = modified" "timeoutKey (lastKey (path c))"
  shows "classify B c = map_sum id (typeRule c)
           (timeoutRule B c
              (\<lparr>level = fst (baseline (lastKey (path c))), ipath = path c, title = NoTitle,
                 description = NoDescription, recommendation = NoRecommendation,
                 changeType = type c, category = snd (baseline (lastKey (path c)))\<rparr>
               \<lparr>title := ChangedValue (lastKey (path c))\<rparr>))"
  using assms timeoutKey_not_activityKey [of "lastKey (path c)"]
  by (simp add: classify_def Let_def activityRule_def split: sum.splits)

text \<open>
  C7, as the code has it. For a modified change whose last key matches \<^verbatim>\<open>/timeout/i\<close> and
  whose two values \<^verbatim>\<open>Number\<close> converts without throwing: when neither number is NaN and the new
  one is strictly less than the old one, exactly one impact is pushed, its level is high, and
  its description names the two numbers provided the two values have the same run-time type.
  When one of the numbers is NaN the timeout rule assigns nothing, whatever the level reached
  before it; if moreover the two values have the same run-time type, the impact keeps the
  baseline tier and has no description and no recommendation.
\<close>

theorem timeout_reduction:
  assumes "type c = modified" and "timeoutKey (lastKey (path c))"
    and "Number B (oldValue c) = Inr oldVal" and "Number B (newValue c) = Inr newVal"
  shows "(\<not> isNaN oldVal \<and> \<not> isNaN newVal \<and> num_less newVal oldVal \<longrightarrow>
            (\<exists>i. classify B c = Inr i \<and> analyzeImpactLocal B [c] = Inr [i]
                 \<and> level i = high
                 \<and> (typeof (oldValue c) = typeof (newValue c) \<longrightarrow>
                       description i = TimeoutReduced oldVal newVal)))
       \<and> (isNaN oldVal \<or> isNaN newVal \<longrightarrow>
            (\<forall>i. timeoutRule B c i = Inr i)
            \<and> (typeof (oldValue c) = typeof (newValue c) \<longrightarrow>
                  (\<exists>i. classify B c = Inr i
                       \<and> level i = fst (baseline (lastKey (path c)))
                       \<and> description i = NoDescription
                       \<and> recommendation i = NoRecommendation)))"
proof (intro conjI impI)
  assume fires: "\<not> isNaN oldVal \<and> \<not> isNaN newVal \<and> num_less newVal oldVal"
  let ?i = "typeRule c
      (\<lparr>level = fst (baseline (lastKey (path c))), ipath = path c, title = NoTitle,
         description = NoDescription, recommendation = NoRecommendation,
         changeType = type c, category = snd (baseline (lastKey (path c)))\<rparr>
       \<lparr>title := ChangedValue (lastKey (path c)), level := high,
         description := TimeoutReduced oldVal newVal,
         recommendation := CheckNewValueSufficient\<rparr>)"
  have c: "classify B c = Inr ?i"
    using assms fires by (simp add: classify_modified_timeout timeoutRule_def)
  have l: "level ?i = high" by (simp add: typeRule_def)
  have d: "typeof (oldValue c) = typeof (newValue c) \<longrightarrow> description ?i = TimeoutReduced oldVal newVal"
    by (simp add: typeRule_def)
  have a: "analyzeImpactLocal B [c] = Inr [?i]" using c l by simp
  from c a l d show "\<exists>i. classify B c = Inr i \<and> analyzeImpactLocal B [c] = Inr [i]
                 \<and> level i = high
                 \<and> (typeof (oldValue c) = typeof (newValue c) \<longrightarrow>
                       description i = TimeoutReduced oldVal newVal)"
    by blast
next
  assume nan: "isNaN oldVal \<or> isNaN newVal"
  show "\<forall>i. timeoutRule B c i = Inr i"
    using assms nan by (auto simp: timeoutRule_def)
next
  assume nan: "isNaN oldVal \<or> isNaN newVal"
    and same: "typeof (oldValue c) = typeof (newValue c)"
  have "timeoutRule B c i = Inr i" for i
    using assms nan by (auto simp: timeoutRule_def)
  then show "\<exists>i. classify B c = Inr i
                       \<and> level i = fst (baseline (lastKey (path c)))
                       \<and> description i = NoDescription
                       \<and> recommendation i = NoRecommendation"
    using assms(1,2) same by (simp add: classify_modified_timeout typeRule_def)
qed

theorem timeout_reduction_witness:
  "type \<lparr>type = modified, path = ''db.timeout'', cvalue = JUndefined,
          oldValue = JNum (Fin 30), newValue = JNum (Fin 10)\<rparr> = modified
   \<and> timeoutKey (lastKey ''db.timeout'')
   \<and> Number sampleBuiltins (JNum (Fin 30)) = Inr (Fin 30)
   \<and> Number sampleBuiltins (JNum (Fin 10)) = Inr (Fin 10)
   \<and> num_less (Fin 10) (Fin 30)
   \<and> map_sum id level (classify sampleBuiltins
        \<lparr>type = modified, path = ''db.timeout'', cvalue = JUndefined,
          oldValue = JNum (Fin 30), newValue = JNum (Fin 10)\<rparr>) = Inr high
   \<and> map_sum id description (classify sampleBuiltins
        \<lparr>type = modified, path = ''db.timeout'', cvalue = JUndefined,
          oldValue = JNum (Fin 30), newValue = JNum (Fin 10)\<rparr>) = Inr (TimeoutReduced (Fin 30) (Fin 10))"
proof -
  let ?c = "\<lparr>type = modified, path = ''db.timeout'', cvalue = JUndefined,
              oldValue = JNum (Fin 30), newValue = JNum (Fin 10)\<rparr>"
  have ty: "type ?c = modified" by simp
  have key: "timeoutKey (lastKey (path ?c))" by code_simp
  have o: "Number sampleBuiltins (oldValue ?c) = Inr (Fin 30)"
    and n: "Number sampleBuiltins (newValue ?c) = Inr (Fin 10)" by simp_all
  have less: "num_less (Fin 10) (Fin 30)" by simp
  from timeout_reduction [OF ty key o n] less
  obtain i where "classify sampleBuiltins ?c = Inr i" "level i = high"
    "description i = TimeoutReduced (Fin 30) (Fin 10)"
    by auto
  then have "map_sum id level (classify sampleBuiltins ?c) = Inr high"
    "map_sum id description (classify sampleBuiltins ?c) = Inr (TimeoutReduced (Fin 30) (Fin 10))"
    by simp_all
  with ty key o n less show ?thesis by simp
qed

text \<open>
  The claim as stated fails where the two values differ in type: a timeout changed from the
  number 30 to \<^verbatim>\<open>null\<close> converts to 30 and 0, the rule fires, and the description that is
  reported is the one of the type rule, which names no number.
\<close>

theorem timeout_description_counterexample:
  "timeoutKey (lastKey ''timeout'')
   \<and> Number sampleBuiltins (JNum (Fin 30)) = Inr (Fin 30)
   \<and> Number sampleBuiltins JNull = Inr (Fin 0)
   \<and> num_less (Fin 0) (Fin 30)
   \<and> map_sum id description (classify sampleBuiltins
        \<lparr>type = modified, path = ''timeout'', cvalue = JUndefined,
          oldValue = JNum (Fin 30), newValue = JNull\<rparr>) = Inr (DataTypeChanged TNumber TObject)
   \<and> map_sum id description (classify sampleBuiltins
        \<lparr>type = modified, path = ''timeout'', cvalue = JUndefined,
          oldValue = JNum (Fin 30), newValue = JNull\<rparr>) \<noteq> Inr (TimeoutReduced (Fin 30) (Fin 0))"
  by code_simp

section \<open>Properties of the differ\<close>

lemma compareObjects_unfold:
  "compareObjects objA objB parent = collect (map (compareKey objA objB parent) (allKeys objA objB))"
  unfolding compareKey_def [abs_def] allKeys_def by (rule compareObjects.simps)

lemma set_newSet: "set (newSet xs) = set xs"
  by (induction xs rule: newSet.induct) auto

lemma set_allKeys: "set (allKeys a b) = set (Object_keys (orEmpty a)) \<union> set (Object_keys (orEmpty b))"
  by (simp add: allKeys_def set_newSet)

lemma collect_Inr:
  "(\<And>k. k \<in> set ks \<Longrightarrow> f k = Inr (g k)) \<Longrightarrow> collect (map f ks) = Inr (concat (map g ks))"
  by (induction ks) auto

lemma collect_total:
  assumes "\<And>k. k \<in> set ks \<Longrightarrow> \<exists>xs. f k = Inr xs"
  shows "collect (map f ks) =
         Inr (concat (map (\<lambda>k. case f k of Inr xs \<Rightarrow> xs | Inl e \<Rightarrow> []) ks))"
proof (rule collect_Inr)
  fix k assume "k \<in> set ks"
  then obtain xs where "f k = Inr xs" by (meson assms)
  then show "f k = Inr (case f k of Inr xs \<Rightarrow> xs | Inl e \<Rightarrow> [])" by simp
qed

lemma collect_mem:
  "collect rs = Inr cs \<Longrightarrow> c \<in> set cs \<Longrightarrow> \<exists>xs. Inr xs \<in> set rs \<and> c \<in> set xs"
proof (induction rs arbitrary: cs)
  case Nil
  then show ?case by simp
next
  case (Cons r rs)
  show ?case
  proof (cases r)
    case (Inl e)
    with Cons.prems show ?thesis by simp
  next
    case (Inr xs)
    show ?thesis
    proof (cases "collect rs")
      case (Inl e)
      with Inr Cons.prems show ?thesis by simp
    next
      case inr: (Inr ys)
      with Inr Cons.prems have "c \<in> set xs \<or> c \<in> set ys" by auto
      then show ?thesis
      proof
        assume "c \<in> set xs"
        with Inr show ?thesis by auto
      next
        assume "c \<in> set ys"
        with Cons.IH [OF inr] obtain zs where "Inr zs \<in> set rs" "c \<in> set zs" by blast
        then show ?thesis by auto
      qed
    qed
  qed
qed

lemma indexOf_decimal: "i < n \<Longrightarrow> \<exists>j. indexOf n (decimal i) = Some j"
proof -
  assume "i < n"
  then have "indexOf n (decimal i) \<noteq> None" by (auto simp: indexOf_def find_None_iff)
  then show ?thesis by auto
qed

lemma hasProperty_own:
  "k \<in> set (Object_keys v) \<Longrightarrow> \<not> nonEmptyString v \<Longrightarrow> hasProperty k v = Inr True"
  by (cases v) (auto simp: nonEmptyString_def indexOf_decimal split: list.splits)

lemma nonEmptyString_orEmpty: "nonEmptyString (orEmpty v) = nonEmptyString v"
  by (cases v) (auto simp: orEmpty_def nonEmptyString_def split: list.splits)

lemma plain_not_string:
  "typeof v = TObject \<Longrightarrow> \<not> nonEmptyString v"
  by (cases v) (auto simp: nonEmptyString_def)

lemma compareKey_same:
  assumes IH: "\<And>v q. size v < size a \<Longrightarrow> \<not> nonEmptyString v \<Longrightarrow> compareObjects v v q = Inr []"
    and k: "k \<in> set (Object_keys (orEmpty a))"
    and a: "\<not> nonEmptyString a"
  shows "compareKey a a p k = Inr []"
proof -
  have own: "hasProperty k (orEmpty a) = Inr True"
    using k a by (simp add: hasProperty_own nonEmptyString_orEmpty)
  show ?thesis
  proof (cases "typeof (getProp a k) = TObject \<and> getProp a k \<noteq> JNull \<and> \<not> isArray (getProp a k)")
    case True
    then have "size (getProp a k) < size a" by (simp add: size_getProp)
    moreover have "\<not> nonEmptyString (getProp a k)" using True by (simp add: plain_not_string)
    ultimately have "compareObjects (getProp a k) (getProp a k)
        (if p \<noteq> [] then p @ ''.'' @ k else k) = Inr []"
      by (rule IH)
    with own True show ?thesis by (simp add: compareKey_def Let_def)
  next
    case False
    with own show ?thesis by (auto simp add: compareKey_def Let_def)
  qed
qed

lemma compareObjects_same:
  "\<not> nonEmptyString a \<Longrightarrow> compareObjects a a p = Inr []"
proof (induction a arbitrary: p rule: measure_induct_rule [of size])
  case (less a)
  have "compareKey a a p k = Inr ((\<lambda>_. []) k)" if "k \<in> set (allKeys a a)" for k
    using that less by (intro compareKey_same) (auto simp: set_allKeys)
  then have "collect (map (compareKey a a p) (allKeys a a)) = Inr (concat (map (\<lambda>_. []) (allKeys a a)))"
    by (rule collect_Inr)
  then show ?case by (simp add: compareObjects_unfold)
qed

lemma addedPairs_simps [simp]:
  "addedPairs [] = {}"
  "addedPairs (xs @ ys) = addedPairs xs \<union> addedPairs ys"
  by (auto simp: addedPairs_def)

lemma removedPairs_simps [simp]:
  "removedPairs [] = {}"
  "removedPairs (xs @ ys) = removedPairs xs \<union> removedPairs ys"
  by (auto simp: removedPairs_def)

lemma addedPairs_concat: "addedPairs (concat (map g ks)) = (\<Union>k \<in> set ks. addedPairs (g k))"
  by (induction ks) auto

lemma removedPairs_concat: "removedPairs (concat (map g ks)) = (\<Union>k \<in> set ks. removedPairs (g k))"
  by (induction ks) auto

lemma hasProperty_total:
  "\<not> truthyPrimitive v \<Longrightarrow> \<exists>b. hasProperty k (orEmpty v) = Inr b"
  by (cases v) (auto simp: truthyPrimitive_def orEmpty_def)

lemma primitive_string: "\<not> truthyPrimitive v \<Longrightarrow> \<not> nonEmptyString v"
  by (cases v) (auto simp: truthyPrimitive_def nonEmptyString_def split: list.splits)

lemma plain_not_primitive: "typeof v = TObject \<Longrightarrow> \<not> truthyPrimitive v"
  by (simp add: truthyPrimitive_def)

lemma mirroredI:
  "r = Inr cs \<Longrightarrow> r' = Inr ds \<Longrightarrow> addedPairs cs = removedPairs ds \<Longrightarrow>
   removedPairs cs = addedPairs ds \<Longrightarrow> mirrored r r'"
  by (simp add: mirrored_def)

lemma mirroredE:
  assumes "mirrored r r'"
  obtains cs ds where "r = Inr cs" "r' = Inr ds" "addedPairs cs = removedPairs ds"
    "removedPairs cs = addedPairs ds"
  using assms by (auto simp: mirrored_def split: sum.splits)

lemma compareKey_mirrored:
  assumes IH: "\<And>v w q. size v < size a \<Longrightarrow> \<not> truthyPrimitive v \<Longrightarrow> \<not> truthyPrimitive w \<Longrightarrow>
                 mirrored (compareObjects v w q) (compareObjects w v q)"
    and a: "\<not> truthyPrimitive a" and b: "\<not> truthyPrimitive b"
    and k: "k \<in> set (allKeys a b)"
  shows "mirrored (compareKey a b p k) (compareKey b a p k)"
proof -
  obtain inA where inA: "hasProperty k (orEmpty a) = Inr inA"
    using hasProperty_total [OF a] by blast
  obtain inB where inB: "hasProperty k (orEmpty b) = Inr inB"
    using hasProperty_total [OF b] by blast
  have "\<not> nonEmptyString (orEmpty a)" "\<not> nonEmptyString (orEmpty b)"
    using a b by (simp_all add: primitive_string nonEmptyString_orEmpty)
  with k inA inB have some: "inA \<or> inB"
    by (auto simp: set_allKeys dest: hasProperty_own)
  let ?va = "getProp a k" and ?vb = "getProp b k"
  let ?q = "if p \<noteq> [] then p @ ''.'' @ k else k"
  show ?thesis
  proof (cases "inA \<and> inB")
    case False
    with inA inB some show ?thesis
      by (auto simp: mirrored_def compareKey_def Let_def addedPairs_def removedPairs_def)
  next
    case both: True
    show ?thesis
    proof (cases "typeof ?va = TObject \<and> typeof ?vb = TObject \<and> ?va \<noteq> JNull \<and> ?vb \<noteq> JNull
                  \<and> \<not> isArray ?va \<and> \<not> isArray ?vb")
      case True
      then have "size ?va < size a" by (simp add: size_getProp)
      moreover have "\<not> truthyPrimitive ?va" "\<not> truthyPrimitive ?vb"
        using True by (simp_all add: plain_not_primitive)
      ultimately have "mirrored (compareObjects ?va ?vb ?q) (compareObjects ?vb ?va ?q)"
        by (rule IH)
      moreover have "compareKey a b p k = compareObjects ?va ?vb ?q"
        using inA inB both True by (simp add: compareKey_def Let_def)
      moreover have "compareKey b a p k = compareObjects ?vb ?va ?q"
        using inA inB both True by (simp add: compareKey_def Let_def)
      ultimately show ?thesis by simp
    next
      case False
      have "compareKey a b p k =
          (if JSON_stringify ?va \<noteq> JSON_stringify ?vb
           then Inr [\<lparr>type = modified, path = ?q, cvalue = JUndefined,
                      oldValue = ?va, newValue = ?vb\<rparr>] else Inr [])"
        using inA inB both False by (auto simp add: compareKey_def Let_def)
      moreover have "compareKey b a p k =
          (if JSON_stringify ?vb \<noteq> JSON_stringify ?va
           then Inr [\<lparr>type = modified, path = ?q, cvalue = JUndefined,
                      oldValue = ?vb, newValue = ?va\<rparr>] else Inr [])"
        using inA inB both False by (auto simp add: compareKey_def Let_def)
      ultimately show ?thesis
        by (simp add: mirrored_def addedPairs_def removedPairs_def)
    qed
  qed
qed

lemma compareObjects_mirrored:
  "\<not> truthyPrimitive a \<Longrightarrow> \<not> truthyPrimitive b \<Longrightarrow>
   mirrored (compareObjects a b p) (compareObjects b a p)"
proof (induction a arbitrary: b p rule: measure_induct_rule [of size])
  case (less a)
  let ?g = "\<lambda>k. case compareKey a b p k of Inr xs \<Rightarrow> xs | Inl e \<Rightarrow> []"
  let ?h = "\<lambda>k. case compareKey b a p k of Inr xs \<Rightarrow> xs | Inl e \<Rightarrow> []"
  have keys: "set (allKeys a b) = set (allKeys b a)"
    by (auto simp: set_allKeys)
  have key: "mirrored (compareKey a b p k) (compareKey b a p k)" if "k \<in> set (allKeys a b)" for k
    using less that by (intro compareKey_mirrored) auto
  have ab: "compareObjects a b p = Inr (concat (map ?g (allKeys a b)))"
    unfolding compareObjects_unfold
  proof (rule collect_total)
    fix k assume "k \<in> set (allKeys a b)"
    then show "\<exists>xs. compareKey a b p k = Inr xs" using key by (blast elim: mirroredE)
  qed
  have ba: "compareObjects b a p = Inr (concat (map ?h (allKeys b a)))"
    unfolding compareObjects_unfold
  proof (rule collect_total)
    fix k assume "k \<in> set (allKeys b a)"
    then show "\<exists>xs. compareKey b a p k = Inr xs" using key keys by (blast elim: mirroredE)
  qed
  have g: "addedPairs (?g k) = removedPairs (?h k)" "removedPairs (?g k) = addedPairs (?h k)"
    if "k \<in> set (allKeys b a)" for k
    using key [of k] that keys by (auto elim!: mirroredE)
  show ?case
    by (rule mirroredI [OF ab ba]) (simp_all add: addedPairs_concat removedPairs_concat keys g)
qed

lemma compareKey_modified:
  assumes IH: "\<And>v w q cs. size v < size a \<Longrightarrow> compareObjects v w q = Inr cs \<Longrightarrow>
                 \<forall>c \<in> set cs. type c = modified \<longrightarrow> differing c"
    and r: "compareKey a b p k = Inr xs"
    and c: "c \<in> set xs" "type c = modified"
  shows "differing c"
proof -
  let ?va = "getProp a k" and ?vb = "getProp b k"
  let ?q = "if p \<noteq> [] then p @ ''.'' @ k else k"
  show ?thesis
  proof (cases "typeof ?va = TObject \<and> typeof ?vb = TObject \<and> ?va \<noteq> JNull \<and> ?vb \<noteq> JNull
                  \<and> \<not> isArray ?va \<and> \<not> isArray ?vb")
    case True
    then have small: "size ?va < size a" by (simp add: size_getProp)
    from r True have "xs = [\<lparr>type = added, path = ?q, cvalue = ?vb,
                          oldValue = JUndefined, newValue = JUndefined\<rparr>]
        \<or> xs = [\<lparr>type = removed, path = ?q, cvalue = ?va,
                          oldValue = JUndefined, newValue = JUndefined\<rparr>]
        \<or> compareObjects ?va ?vb ?q = Inr xs"
      by (simp add: compareKey_def Let_def split: sum.splits if_splits)
    then show ?thesis
    proof (elim disjE)
      assume "compareObjects ?va ?vb ?q = Inr xs"
      from IH [OF small this] c show ?thesis by blast
    qed (use c in auto)
  next
    case False
    from r False have "xs = [\<lparr>type = added, path = ?q, cvalue = ?vb,
                          oldValue = JUndefined, newValue = JUndefined\<rparr>]
        \<or> xs = [\<lparr>type = removed, path = ?q, cvalue = ?va,
                          oldValue = JUndefined, newValue = JUndefined\<rparr>]
        \<or> xs = []
        \<or> (JSON_stringify ?va \<noteq> JSON_stringify ?vb
            \<and> xs = [\<lparr>type = modified, path = ?q, cvalue = JUndefined,
                       oldValue = ?va, newValue = ?vb\<rparr>])"
      by (simp add: compareKey_def Let_def split: sum.splits if_splits)
    then show ?thesis using c by (auto simp: differing_def)
  qed
qed

lemma compareObjects_modified:
  "compareObjects a b p = Inr cs \<Longrightarrow> \<forall>c \<in> set cs. type c = modified \<longrightarrow> differing c"
proof (induction a arbitrary: b p cs rule: measure_induct_rule [of size])
  case (less a)
  show ?case
  proof (intro ballI impI)
    fix c assume c: "c \<in> set cs" "type c = modified"
    from less.prems have "collect (map (compareKey a b p) (allKeys a b)) = Inr cs"
      by (simp add: compareObjects_unfold)
    from collect_mem [OF this c(1)] obtain xs
      where xs: "Inr xs \<in> set (map (compareKey a b p) (allKeys a b))" "c \<in> set xs" by blast
    from xs(1) obtain k where "compareKey a b p k = Inr xs" by (auto simp: image_iff)
    with xs(2) have "compareKey a b p k = Inr xs" "c \<in> set xs" by simp_all
    then show "differing c"
      using less.IH c(2) by (intro compareKey_modified [of a b p k xs c]) auto
  qed
qed

text \<open>
  C6, as the code has it. For every document whose root is not a non-empty string, the diff
  of the document with itself is the empty list. (Mappings, sequences, numbers, booleans, null
  and the empty string are all covered.)
\<close>

theorem diff_same_document:
  "\<not> nonEmptyString a \<Longrightarrow> diff a a = Inr []"
  unfolding diff_def by (rule compareObjects_same)

theorem diff_same_document_witness:
  "\<not> nonEmptyString (JObj [(''name'', JStr ''svc''),
                            (''db'', JObj [(''host'', JStr ''a''), (''ports'', JArr [JNum (Fin 1), JNull])])])
   \<and> diff (JObj [(''name'', JStr ''svc''),
                 (''db'', JObj [(''host'', JStr ''a''), (''ports'', JArr [JNum (Fin 1), JNull])])])
           (JObj [(''name'', JStr ''svc''),
                 (''db'', JObj [(''host'', JStr ''a''), (''ports'', JArr [JNum (Fin 1), JNull])])])
       = Inr []"
proof -
  let ?a = "JObj [(''name'', JStr ''svc''),
                  (''db'', JObj [(''host'', JStr ''a''), (''ports'', JArr [JNum (Fin 1), JNull])])]"
  have h: "\<not> nonEmptyString ?a" by (simp add: nonEmptyString_def)
  from h diff_same_document [OF h] show ?thesis by simp
qed

text \<open>
  A root that is a non-empty string has its character positions as keys, and the operator
  \<^verbatim>\<open>in\<close> throws on a string: the call ends with a TypeError and returns no list.
\<close>

theorem diff_same_string_counterexample:
  "diff (JStr ''ab'') (JStr ''ab'') = Inl TypeError"
  by code_simp

text \<open>
  C5, as the code has it. For every pair of documents neither of whose roots is a truthy
  primitive (a non-empty string, a number other than 0 and NaN, or \<^verbatim>\<open>true\<close>), both diffs
  return, the (path, value) pairs added by \<open>diff a b\<close> are the pairs removed by \<open>diff b a\<close>,
  and the pairs removed by \<open>diff a b\<close> are the pairs added by \<open>diff b a\<close>.
\<close>

theorem diff_added_removed_mirror:
  assumes "\<not> truthyPrimitive a" and "\<not> truthyPrimitive b"
  shows "\<exists>cs ds. diff a b = Inr cs \<and> diff b a = Inr ds
           \<and> addedPairs cs = removedPairs ds \<and> removedPairs cs = addedPairs ds"
  using compareObjects_mirrored [OF assms, of "[]"]
  unfolding diff_def by (auto elim!: mirroredE)

theorem diff_added_removed_mirror_witness:
  "\<not> truthyPrimitive (JObj [(''a'', JNum (Fin 1)), (''c'', JObj [(''d'', JNull)])])
   \<and> \<not> truthyPrimitive (JObj [(''a'', JNum (Fin 1)), (''b'', JNum (Fin 2)), (''c'', JObj [])])
   \<and> diff (JObj [(''a'', JNum (Fin 1)), (''c'', JObj [(''d'', JNull)])])
          (JObj [(''a'', JNum (Fin 1)), (''b'', JNum (Fin 2)), (''c'', JObj [])])
       = Inr [\<lparr>type = removed, path = ''c.d'', cvalue = JNull,
                    oldValue = JUndefined, newValue = JUndefined\<rparr>,
                  \<lparr>type = added, path = ''b'', cvalue = JNum (Fin 2),
                    oldValue = JUndefined, newValue = JUndefined\<rparr>]
   \<and> addedPairs [\<lparr>type = removed, path = ''c.d'', cvalue = JNull,
                    oldValue = JUndefined, newValue = JUndefined\<rparr>,
                  \<lparr>type = added, path = ''b'', cvalue = JNum (Fin 2),
                    oldValue = JUndefined, newValue = JUndefined\<rparr>]
       = removedPairs [\<lparr>type = removed, path = ''b'', cvalue = JNum (Fin 2),
                    oldValue = JUndefined, newValue = JUndefined\<rparr>,
                  \<lparr>type = added, path = ''c.d'', cvalue = JNull,
                    oldValue = JUndefined, newValue = JUndefined\<rparr>]"
proof -
  let ?a = "JObj [(''a'', JNum (Fin 1)), (''c'', JObj [(''d'', JNull)])]"
  let ?b = "JObj [(''a'', JNum (Fin 1)), (''b'', JNum (Fin 2)), (''c'', JObj [])]"
  have ha: "\<not> truthyPrimitive ?a" and hb: "\<not> truthyPrimitive ?b"
    by (simp_all add: truthyPrimitive_def)
  have ab: "diff ?a ?b = Inr [\<lparr>type = removed, path = ''c.d'', cvalue = JNull,
                    oldValue = JUndefined, newValue = JUndefined\<rparr>,
                  \<lparr>type = added, path = ''b'', cvalue = JNum (Fin 2),
                    oldValue = JUndefined, newValue = JUndefined\<rparr>]"
    by code_simp
  have ba: "diff ?b ?a = Inr [\<lparr>type = removed, path = ''b'', cvalue = JNum (Fin 2),
                    oldValue = JUndefined, newValue = JUndefined\<rparr>,
                  \<lparr>type = added, path = ''c.d'', cvalue = JNull,
                    oldValue = JUndefined, newValue = JUndefined\<rparr>]"
    by code_simp
  from diff_added_removed_mirror [OF ha hb] ha hb ab show ?thesis
    unfolding ab ba by simp
qed

text \<open>
  With a string as one root the two directions part: from the empty mapping to \<^verbatim>\<open>"ab"\<close> two
  keys are added, and in the other direction the call throws, so nothing is reported removed.
\<close>

theorem diff_string_root_counterexample:
  "diff (JObj []) (JStr ''ab'') =
     Inr [\<lparr>type = added, path = ''0'', cvalue = JStr ''a'',
            oldValue = JUndefined, newValue = JUndefined\<rparr>,
          \<lparr>type = added, path = ''1'', cvalue = JStr ''b'',
            oldValue = JUndefined, newValue = JUndefined\<rparr>]
   \<and> diff (JStr ''ab'') (JObj []) = Inl TypeError"
  by code_simp

text \<open>
  C4, as the code has it. The old and the new value of every record of kind modified have
  different JSON serialisations, and so are different values, where the order of the keys of a
  mapping counts as part of the value.
\<close>

theorem modified_values_serialise_differently:
  assumes "diff a b = Inr cs" and "c \<in> set cs" and "type c = modified"
  shows "JSON_stringify (oldValue c) \<noteq> JSON_stringify (newValue c) \<and> oldValue c \<noteq> newValue c"
  using compareObjects_modified [of a b "[]" cs] assms
  unfolding diff_def differing_def by auto

theorem modified_values_serialise_differently_witness:
  "diff (JObj [(''port'', JNum (Fin 80)), (''tags'', JArr [JStr ''x''])])
        (JObj [(''port'', JNum (Fin 8080)), (''tags'', JArr [JStr ''x''])])
     = Inr [\<lparr>type = modified, path = ''port'', cvalue = JUndefined,
              oldValue = JNum (Fin 80), newValue = JNum (Fin 8080)\<rparr>]
   \<and> JSON_stringify (JNum (Fin 80)) \<noteq> JSON_stringify (JNum (Fin 8080))"
proof -
  let ?c = "\<lparr>type = modified, path = ''port'', cvalue = JUndefined,
              oldValue = JNum (Fin 80), newValue = JNum (Fin 8080)\<rparr>"
  have ev: "diff (JObj [(''port'', JNum (Fin 80)), (''tags'', JArr [JStr ''x''])])
        (JObj [(''port'', JNum (Fin 8080)), (''tags'', JArr [JStr ''x''])]) = Inr [?c]"
    by code_simp
  have mem: "?c \<in> set [?c]" and ty: "type ?c = modified" by simp_all
  from modified_values_serialise_differently [OF ev mem ty] ev show ?thesis by simp
qed

text \<open>
  The serialisation writes the keys of a mapping in their order, so two sequences holding the
  same mapping with its keys in another order are reported as modified, although they are equal
  under the deep equality of the specification.
\<close>

theorem modified_key_order_counterexample:
  "diff (JObj [(''x'', JArr [JObj [(''a'', JNum (Fin 1)), (''b'', JNum (Fin 2))]])])
        (JObj [(''x'', JArr [JObj [(''b'', JNum (Fin 2)), (''a'', JNum (Fin 1))]])]) =
   Inr [\<lparr>type = modified, path = ''x'', cvalue = JUndefined,
         oldValue = JArr [JObj [(''a'', JNum (Fin 1)), (''b'', JNum (Fin 2))]],
         newValue = JArr [JObj [(''b'', JNum (Fin 2)), (''a'', JNum (Fin 1))]]\<rparr>]
   \<and> deepEqual (JArr [JObj [(''a'', JNum (Fin 1)), (''b'', JNum (Fin 2))]])
                (JArr [JObj [(''b'', JNum (Fin 2)), (''a'', JNum (Fin 1))]])"
  by code_simp

section \<open>Properties of the history analyzer\<close>

lemma bump_keys:
  "map fst (bump kvs p) =
     (if p \<in> fst ` set kvs \<or> p = ''__proto__'' then map fst kvs else map fst kvs @ [p])"
  by (induction kvs p rule: bump.induct) (auto simp: Object_prototype_def)

lemma bump_distinct: "distinct (map fst kvs) \<Longrightarrow> distinct (map fst (bump kvs p))"
  by (simp add: bump_keys)

lemma bump_map_of:
  "p \<notin> set Object_prototype \<Longrightarrow>
   map_of (bump kvs p) q =
     (if q = p then Some (case map_of kvs p of None \<Rightarrow> Count 1 | Some v \<Rightarrow> plusOne v)
      else map_of kvs q)"
  by (induction kvs p rule: bump.induct) auto

lemma foldl_bump_distinct: "distinct (map fst kvs) \<Longrightarrow> distinct (map fst (foldl bump kvs ps))"
  by (induction ps arbitrary: kvs) (auto simp: bump_distinct)

lemma foldl_bump_map_of:
  "set ps \<inter> set Object_prototype = {} \<Longrightarrow>
   map_of (foldl bump kvs ps) q =
     (case map_of kvs q of
        None \<Rightarrow> if count_list ps q = 0 then None else Some (Count (count_list ps q))
      | Some (Count n) \<Rightarrow> Some (Count (n + count_list ps q))
      | Some Text \<Rightarrow> Some Text)"
proof (induction ps arbitrary: kvs)
  case Nil
  then show ?case by (simp split: option.splits counter.splits)
next
  case (Cons p ps)
  then have p: "p \<notin> set Object_prototype" and ps: "set ps \<inter> set Object_prototype = {}"
    by auto
  show ?case
    by (simp add: Cons.IH [OF ps] bump_map_of [OF p] split: option.splits counter.splits)
qed

lemma pathCounts_distinct: "distinct (map fst (pathCounts h))"
  by (simp add: pathCounts_def foldl_bump_distinct)

lemma pathCounts_mem:
  assumes "ordinaryPaths h"
  shows "(p, v) \<in> set (pathCounts h) \<longleftrightarrow> v = Count (occurrences h p) \<and> 0 < occurrences h p"
proof -
  have "(p, v) \<in> set (pathCounts h) \<longleftrightarrow> map_of (pathCounts h) p = Some v"
    using pathCounts_distinct [of h] by simp
  also have "\<dots> \<longleftrightarrow> v = Count (occurrences h p) \<and> 0 < occurrences h p"
    using assms
    by (auto simp: pathCounts_def occurrences_def ordinaryPaths_def foldl_bump_map_of)
  finally show ?thesis .
qed

lemma mset_Object_entries: "mset (Object_entries kvs) = mset kvs"
proof -
  have "arrayIndex k = None \<longleftrightarrow> \<not> arrayIndex k \<noteq> None" for k by simp
  then show ?thesis
    unfolding Object_entries_def
    by (simp add: case_prod_unfold)
qed

lemma set_Object_entries: "set (Object_entries kvs) = set kvs"
  using mset_Object_entries [of kvs] by (metis set_mset_mset)

lemma distinct_Object_entries:
  "distinct (map fst kvs) \<Longrightarrow> distinct (map fst (Object_entries kvs))"
proof -
  have "mset (map fst (Object_entries kvs)) = mset (map fst kvs)"
    by (simp add: mset_Object_entries)
  then show "distinct (map fst kvs) \<Longrightarrow> distinct (map fst (Object_entries kvs))"
    by (metis mset_eq_imp_distinct_iff)
qed

lemma frequentlyChanged_set:
  "ordinaryPaths h \<Longrightarrow>
   set (frequentlyChanged h) = {(p, v). v = Count (occurrences h p) \<and> 3 \<le> occurrences h p}"
  by (auto simp: frequentlyChanged_def set_Object_entries pathCounts_mem)

lemma frequentlyChanged_distinct: "distinct (map fst (frequentlyChanged h))"
proof -
  have "distinct (map fst (filter (\<lambda>(p, count). atLeast3 count) (Object_entries (pathCounts h))))"
    using distinct_Object_entries [OF pathCounts_distinct, of h] by (simp add: distinct_map_filter)
  moreover have "mset (map fst (frequentlyChanged h)) =
      mset (map fst (filter (\<lambda>(p, count). atLeast3 count) (Object_entries (pathCounts h))))"
    by (simp add: frequentlyChanged_def)
  ultimately show ?thesis by (metis mset_eq_imp_distinct_iff)
qed

lemma frequentlyChanged_sorted:
  "sorted_wrt (\<lambda>x y. number (snd x) \<ge> number (snd y)) (frequentlyChanged h)"
proof -
  have "sorted (map (\<lambda>(p, count). - int (number count)) (frequentlyChanged h))"
    unfolding frequentlyChanged_def by (rule sorted_sort_key)
  then show ?thesis
    by (simp add: sorted_map case_prod_unfold sorted_wrt_iff_nth_less)
qed

lemma frequentlyChanged_length:
  assumes "ordinaryPaths h"
  shows "length (frequentlyChanged h) = card {p. 3 \<le> occurrences h p}"
proof -
  have "fst ` set (frequentlyChanged h) = {p. 3 \<le> occurrences h p}"
    by (auto simp: frequentlyChanged_set [OF assms] image_iff)
  then have "card {p. 3 \<le> occurrences h p} = card (set (map fst (frequentlyChanged h)))"
    by simp
  also have "\<dots> = length (map fst (frequentlyChanged h))"
    using frequentlyChanged_distinct by (rule distinct_card)
  finally show ?thesis by simp
qed

lemma frequentlyChanged_top:
  assumes h: "ordinaryPaths h"
    and q: "3 \<le> occurrences h q" "q \<notin> fst ` set (take m (frequentlyChanged h))"
    and x: "x \<in> set (take m (frequentlyChanged h))"
  shows "occurrences h q \<le> number (snd x)"
proof -
  let ?fc = "frequentlyChanged h"
  have "(q, Count (occurrences h q)) \<in> set ?fc"
    using q(1) by (simp add: frequentlyChanged_set [OF h])
  then have "(q, Count (occurrences h q)) \<in> set (take m ?fc) \<union> set (drop m ?fc)"
    by (metis append_take_drop_id set_append)
  with q(2) have d: "(q, Count (occurrences h q)) \<in> set (drop m ?fc)" by force
  have "sorted_wrt (\<lambda>x y. number (snd x) \<ge> number (snd y)) (take m ?fc @ drop m ?fc)"
    using frequentlyChanged_sorted [of h] by simp
  then have "\<forall>a \<in> set (take m ?fc). \<forall>b \<in> set (drop m ?fc). number (snd b) \<le> number (snd a)"
    unfolding sorted_wrt_append by blast
  with x d show ?thesis by force
qed

text \<open>
  What the analyzer does on a history none of whose change paths is the name of a member of
  \<^verbatim>\<open>Object.prototype\<close>. With fewer than three entries the result is empty. With three or
  more, the result is empty when no path occurs three times, and otherwise is one insight
  listing the first five entries of \<open>frequentlyChanged\<close>, each rendered as \<^verbatim>\<open>path (Nx)\<close>. That
  list holds exactly the paths that occur at least three times among all changes, each once
  and with its number of occurrences, in descending order of count; so the paths reported are
  as many as there are such paths, up to five, and no path left out occurs more often than a
  path reported.
\<close>

theorem history_insights:
  assumes "ordinaryPaths h"
  shows "(length h < 3 \<longrightarrow> analyzeHistory h = [])
   \<and> (3 \<le> length h \<longrightarrow>
        analyzeHistory h =
          (if frequentlyChanged h = [] then []
           else [frequent_changes
                   (map (\<lambda>(p, count). p @ '' ('' @ decimal (number count) @ ''x)'')
                        (take 5 (frequentlyChanged h)))])
        \<and> set (frequentlyChanged h) = {(p, v). v = Count (occurrences h p) \<and> 3 \<le> occurrences h p}
        \<and> distinct (map fst (frequentlyChanged h))
        \<and> sorted_wrt (\<lambda>x y. number (snd y) \<le> number (snd x)) (frequentlyChanged h)
        \<and> length (take 5 (frequentlyChanged h)) = min 5 (card {p. 3 \<le> occurrences h p})
        \<and> (\<forall>q. 3 \<le> occurrences h q \<and> q \<notin> fst ` set (take 5 (frequentlyChanged h)) \<longrightarrow>
              (\<forall>x \<in> set (take 5 (frequentlyChanged h)). occurrences h q \<le> number (snd x))))"
proof (intro conjI impI allI ballI)
  show "analyzeHistory h = []" if "length h < 3"
    using that by (simp add: analyzeHistory_def)
  show "analyzeHistory h =
          (if frequentlyChanged h = [] then []
           else [frequent_changes
                   (map (\<lambda>(p, count). p @ '' ('' @ decimal (number count) @ ''x)'')
                        (take 5 (frequentlyChanged h)))])" if "3 \<le> length h"
    using that by (simp add: analyzeHistory_def Let_def)
  show "set (frequentlyChanged h) = {(p, v). v = Count (occurrences h p) \<and> 3 \<le> occurrences h p}"
    using assms by (rule frequentlyChanged_set)
  show "distinct (map fst (frequentlyChanged h))"
    by (rule frequentlyChanged_distinct)
  show "sorted_wrt (\<lambda>x y. number (snd y) \<le> number (snd x)) (frequentlyChanged h)"
    by (rule frequentlyChanged_sorted)
  show "length (take 5 (frequentlyChanged h)) = min 5 (card {p. 3 \<le> occurrences h p})"
    by (simp add: frequentlyChanged_length [OF assms] min.commute)
  show "occurrences h q \<le> number (snd x)"
    if "3 \<le> occurrences h q \<and> q \<notin> fst ` set (take 5 (frequentlyChanged h))"
      and "x \<in> set (take 5 (frequentlyChanged h))" for q x
    using that assms by (intro frequentlyChanged_top [of h q 5 x]) simp_all
qed

theorem history_insights_witness:
  "ordinaryPaths [entryModifying [''port'', ''db.host''], entryModifying [''db.host'', ''8080'', ''port''],
       entryModifying [''db.host'', ''8080''], entryModifying [''db.host'', ''8080'', ''port'', ''x'']]
   \<and> 3 \<le> length [entryModifying [''port'', ''db.host''], entryModifying [''db.host'', ''8080'', ''port''],
       entryModifying [''db.host'', ''8080''], entryModifying [''db.host'', ''8080'', ''port'', ''x'']]
   \<and> analyzeHistory [entryModifying [''port'', ''db.host''], entryModifying [''db.host'', ''8080'', ''port''],
       entryModifying [''db.host'', ''8080''], entryModifying [''db.host'', ''8080'', ''port'', ''x'']]
     = [frequent_changes [''db.host (4x)'', ''8080 (3x)'', ''port (3x)'']]
   \<and> ordinaryPaths [entryModifying [''port''], entryModifying [''port'']]
   \<and> length [entryModifying [''port''], entryModifying [''port'']] < 3
   \<and> analyzeHistory [entryModifying [''port''], entryModifying [''port'']] = []"
proof -
  let ?h = "[entryModifying [''port'', ''db.host''], entryModifying [''db.host'', ''8080'', ''port''],
       entryModifying [''db.host'', ''8080''], entryModifying [''db.host'', ''8080'', ''port'', ''x'']]"
  let ?g = "[entryModifying [''port''], entryModifying [''port'']]"
  have len: "3 \<le> length ?h" and short: "length ?g < 3" by simp_all
  have ord: "ordinaryPaths ?h" "ordinaryPaths ?g" by code_simp+
  have fc: "frequentlyChanged ?h = [(''db.host'', Count 4), (''8080'', Count 3), (''port'', Count 3)]"
    by code_simp
  have render: "map (\<lambda>(p, count). p @ '' ('' @ decimal (number count) @ ''x)'')
      (take 5 [(''db.host'', Count 4), (''8080'', Count 3), (''port'', Count 3)])
      = [''db.host (4x)'', ''8080 (3x)'', ''port (3x)'']"
    by code_simp
  from history_insights [OF ord(1)] len
  have "analyzeHistory ?h = [frequent_changes [''db.host (4x)'', ''8080 (3x)'', ''port (3x)'']]"
    unfolding fc render by simp
  moreover from history_insights [OF ord(2)] short have "analyzeHistory ?g = []" by blast
  ultimately show ?thesis using len short ord by blast
qed

text \<open>
  C9. The claim asks that every path occurring at least three times is reported. The code
  counts in an object literal, which inherits the members of \<^verbatim>\<open>Object.prototype\<close>: a path
  named like one of them is never counted as a number and never reported. Three entries that
  each change the key \<^verbatim>\<open>constructor\<close> give no insight at all.
\<close>

theorem inherited_name_never_reported:
  "occurrences [entryModifying [''constructor''], entryModifying [''constructor''],
                entryModifying [''constructor'']] ''constructor'' = 3
   \<and> 3 \<le> length [entryModifying [''constructor''], entryModifying [''constructor''],
                entryModifying [''constructor'']]
   \<and> analyzeHistory [entryModifying [''constructor''], entryModifying [''constructor''],
                entryModifying [''constructor'']] = []"
  by code_simp

section \<open>Properties of the loader\<close>

text \<open>
  C3, as the code has it. A file whose extension, in lower case, is none of \<^verbatim>\<open>.json\<close>,
  \<^verbatim>\<open>.yaml\<close> and \<^verbatim>\<open>.yml\<close> is parsed by \<^verbatim>\<open>JSON.parse\<close>; when that throws, the loader throws an
  error naming the extension as an unsupported format. The line parser is not used.
\<close>

theorem unknown_extension_parsed_as_JSON:
  assumes "toLowerCase (extname p) \<noteq> ''.json''"
    and "toLowerCase (extname p) \<noteq> ''.yaml''"
    and "toLowerCase (extname p) \<noteq> ''.yml''"
  shows "loadFile B fs p =
           (case fs p of
              Missing \<Rightarrow> Inl (FileNotFound p)
            | Unreadable \<Rightarrow> Inl IOError
            | Content c \<Rightarrow>
                (case JSON_parse B c of
                   Inr v \<Rightarrow> Inr v
                 | Inl e \<Rightarrow> Inl (UnsupportedFormat (toLowerCase (extname p)))))"
  using assms
  by (simp add: loadFile_def existsSync_def readFileSync_def Let_def split: fsnode.split)

theorem unknown_extension_parsed_as_JSON_witness:
  "toLowerCase (extname ''settings.CONF'') = ''.conf''
   \<and> loadFile sampleBuiltins (\<lambda>p. if p = ''settings.CONF'' then Content ''port = 80'' else Missing)
         ''settings.CONF'' = Inl (UnsupportedFormat ''.conf'')"
proof -
  let ?fs = "\<lambda>p. if p = ''settings.CONF'' then Content ''port = 80'' else Missing"
  have ext: "toLowerCase (extname ''settings.CONF'') = ''.conf''" by code_simp
  have a: "toLowerCase (extname ''settings.CONF'') \<noteq> ''.json''"
    and b: "toLowerCase (extname ''settings.CONF'') \<noteq> ''.yaml''"
    and c: "toLowerCase (extname ''settings.CONF'') \<noteq> ''.yml''"
    unfolding ext by simp_all
  from unknown_extension_parsed_as_JSON [OF a b c, of sampleBuiltins ?fs] ext
  show ?thesis by (simp add: sampleBuiltins_def)
qed

text \<open>
  The same text is a mapping for the line parser and is no JSON text: under the name
  \<^verbatim>\<open>config.yaml\<close> it loads, under the name \<^verbatim>\<open>config.txt\<close> the loader throws.
\<close>

theorem unknown_extension_counterexample:
  "toLowerCase (extname ''config.txt'') = ''.txt''
   \<and> loadFile sampleBuiltins
         (\<lambda>p. if p = ''config.txt'' then Content (''db:'' @ [CHR 0x0A] @ ''  host: a'') else Missing)
         ''config.txt'' = Inl (UnsupportedFormat ''.txt'')
   \<and> loadFile sampleBuiltins
         (\<lambda>p. if p = ''config.yaml'' then Content (''db:'' @ [CHR 0x0A] @ ''  host: a'') else Missing)
         ''config.yaml'' = Inr (JObj [(''db'', JObj [(''host'', JStr ''a'')])])
   \<and> parseYAML sampleBuiltins (''db:'' @ [CHR 0x0A] @ ''  host: a'')
       = JObj [(''db'', JObj [(''host'', JStr ''a'')])]"
  by code_simp

text \<open>
  C10. \<^verbatim>\<open>loadHistory\<close> always returns: the empty list when the history file does not exist,
  when it cannot be read, and when its content is not JSON; what \<^verbatim>\<open>JSON.parse\<close> returns
  otherwise. The caller cannot tell a history file that is corrupted from one that is absent.
\<close>

theorem loadHistory_never_fails:
  "(\<exists>v. loadHistory B fs f = Inr v)
   \<and> (fs f = Missing \<longrightarrow> loadHistory B fs f = Inr (JArr []))
   \<and> (fs f = Unreadable \<longrightarrow> loadHistory B fs f = Inr (JArr []))
   \<and> (\<forall>c e. fs f = Content c \<and> JSON_parse B c = Inl e \<longrightarrow> loadHistory B fs f = Inr (JArr []))
   \<and> (\<forall>c v. fs f = Content c \<and> JSON_parse B c = Inr v \<longrightarrow> loadHistory B fs f = Inr v)"
  by (cases "fs f")
     (auto simp: loadHistory_def existsSync_def readFileSync_def split: sum.splits option.splits)

theorem loadHistory_never_fails_witness:
  "JSON_parse sampleBuiltins ''[{name: oops'' = Inl SyntaxError
   \<and> loadHistory sampleBuiltins
        (\<lambda>p. if p = ''/home/u/.impact-cli-history.json'' then Content ''[{name: oops'' else Missing)
        ''/home/u/.impact-cli-history.json'' = Inr (JArr [])
   \<and> loadHistory sampleBuiltins (\<lambda>p. Missing) ''/home/u/.impact-cli-history.json'' = Inr (JArr [])"
proof -
  let ?f = "''/home/u/.impact-cli-history.json''"
  let ?fs = "\<lambda>p. if p = ?f then Content ''[{name: oops'' else Missing"
  have bad: "JSON_parse sampleBuiltins ''[{name: oops'' = Inl SyntaxError"
    by (simp add: sampleBuiltins_def)
  have content: "?fs ?f = Content ''[{name: oops''" by simp
  have "loadHistory sampleBuiltins ?fs ?f = Inr (JArr [])"
    using loadHistory_never_fails [of sampleBuiltins ?fs ?f] content bad by blast
  moreover have "loadHistory sampleBuiltins (\<lambda>p. Missing) ?f = Inr (JArr [])"
    using loadHistory_never_fails [of sampleBuiltins "\<lambda>p. Missing" ?f] by blast
  ultimately show ?thesis using bad by blast
qed

end
